theory Spec2Isabelle
  imports Complex_Main
begin

section \<open>The values the component stores\<close>

text \<open>
  \<^verbatim>\<open>ui/src/App.vue\<close> declares \<^verbatim>\<open>const userData = ref<any | null>(null)\<close>. The cell
  is given \<^verbatim>\<open>null\<close>, the literal \<^verbatim>\<open>false\<close>, or whatever \<^verbatim>\<open>res.json()\<close> parsed: any JSON
  value. What the cell then holds is that value or, for an object or array, Vue's reactive
  proxy of it: \<open>JReactive v\<close> is the proxy whose target is \<open>v\<close>. Proxies are made by
  the cell only; a parsed body has none. A parsed number is a double; only its being zero is ever observed, so the finite
  ones are kept by their exact value (\<open>-0\<close> is \<open>Finite 0\<close>) and an overflowing literal
  such as \<^verbatim>\<open>1e999\<close> is an infinity. \<^verbatim>\<open>JSON.parse\<close> never yields \<^verbatim>\<open>NaN\<close>. An object is
  the list of its members in the order of the text; a repeated key is overwritten by its
  last occurrence. Strings are lists of Latin-1 code units.
\<close>

datatype js_number = Finite rat | PosInfinity | NegInfinity

datatype js_value =
    JNull
  | JBool bool
  | JNumber js_number
  | JString string
  | JArray "js_value list"
  | JObject "(string \<times> js_value) list"
  | JReactive js_value

datatype js_error = TypeError

text \<open>
  Reading a property of a plain value, \<^verbatim>\<open>v[k]\<close>. \<open>None\<close> is \<^verbatim>\<open>undefined\<close>. The
  names read here (\<^verbatim>\<open>displayName\<close>, \<^verbatim>\<open>userPrincipalName\<close>, \<^verbatim>\<open>mail\<close>, \<^verbatim>\<open>value\<close> and Vue's
  \<^verbatim>\<open>__v_\<close> flags) exist on no prototype, so only an object's own members answer; on a
  boolean, number, string or array the read is \<^verbatim>\<open>undefined\<close>. No property is ever read of
  \<^verbatim>\<open>null\<close>.
\<close>

definition own_property :: "(string \<times> js_value) list \<Rightarrow> string \<Rightarrow> js_value option" where
  "own_property members k = map_of (rev members) k"

definition has_own :: "(string \<times> js_value) list \<Rightarrow> string \<Rightarrow> bool" where
  "has_own members k = (k \<in> set (map fst members))"

fun raw_property :: "js_value \<Rightarrow> string \<Rightarrow> js_value option" where
  "raw_property (JObject members) k = own_property members k"
| "raw_property v k = None"

subsection \<open>Truthiness\<close>

text \<open>\<^verbatim>\<open>v-else-if="userData"\<close> tests \<^verbatim>\<open>ToBoolean\<close>.\<close>

fun truthy :: "js_value \<Rightarrow> bool" where
  "truthy JNull = False"
| "truthy (JBool b) = b"
| "truthy (JNumber n) = (n \<noteq> Finite 0)"
| "truthy (JString s) = (s \<noteq> [])"
| "truthy (JArray xs) = True"
| "truthy (JObject members) = True"
| "truthy (JReactive v) = True"

subsection \<open>String to number\<close>

text \<open>
  \<^verbatim>\<open>userData == false\<close> is the loose comparison. With a boolean on the right it compares
  \<^verbatim>\<open>userData\<close> with the number 0, converting a string by \<^verbatim>\<open>StringToNumber\<close>. Only
  whether that number is zero matters. \<open>string_mv\<close> reads the literal: white space is
  trimmed, the empty string is 0, then a decimal literal (optional sign, digits, fraction,
  exponent), \<^verbatim>\<open>Infinity\<close>, or an unsigned \<^verbatim>\<open>0x\<close>, \<^verbatim>\<open>0o\<close>, \<^verbatim>\<open>0b\<close> literal. A decimal
  literal denotes \<open>m * 10 ^ e\<close>; rounding to the nearest double gives zero when that is
  at most half the least subnormal, \<open>2 ^ -1075\<close>.
\<close>

definition is_space :: "char \<Rightarrow> bool" where
  "is_space c = (c \<in> set [CHR 0x09, CHR 0x0A, CHR 0x0B, CHR 0x0C, CHR 0x0D, CHR 0x20, CHR 0xA0])"

definition trim :: "string \<Rightarrow> string" where
  "trim s = rev (dropWhile is_space (rev (dropWhile is_space s)))"

definition is_digit :: "char \<Rightarrow> bool" where
  "is_digit c = (c \<in> set ''0123456789'')"

definition digit_of :: "char \<Rightarrow> nat" where
  "digit_of c =
     (if c \<in> set ''0123456789'' then of_char c - 48
      else if c \<in> set ''abcdef'' then of_char c - 87
      else if c \<in> set ''ABCDEF'' then of_char c - 55
      else 0)"

definition in_base :: "nat \<Rightarrow> char \<Rightarrow> bool" where
  "in_base b c = (c \<in> set ''0123456789abcdefABCDEF'' \<and> digit_of c < b)"

definition digits_value :: "nat \<Rightarrow> string \<Rightarrow> nat" where
  "digits_value b ds = foldl (\<lambda>n c. b * n + digit_of c) 0 ds"

datatype mv = NotNumeric | InfiniteMV | MV nat int

definition exponent_part :: "string \<Rightarrow> int option" where
  "exponent_part r =
     (case r of
        [] \<Rightarrow> Some 0
      | c # ds \<Rightarrow>
          if c \<noteq> CHR ''e'' \<and> c \<noteq> CHR ''E'' then None
          else (case ds of
                  [] \<Rightarrow> None
                | d # ds' \<Rightarrow>
                    if d = CHR ''-'' then
                      (if ds' \<noteq> [] \<and> list_all is_digit ds' then Some (- int (digits_value 10 ds'))
                       else None)
                    else if d = CHR ''+'' then
                      (if ds' \<noteq> [] \<and> list_all is_digit ds' then Some (int (digits_value 10 ds'))
                       else None)
                    else if list_all is_digit ds then Some (int (digits_value 10 ds))
                    else None))"

definition unsigned_decimal :: "string \<Rightarrow> mv" where
  "unsigned_decimal u =
     (if u = ''Infinity'' then InfiniteMV
      else
        let ip = takeWhile is_digit u; r1 = dropWhile is_digit u;
            dot = (r1 \<noteq> [] \<and> hd r1 = CHR ''.'');
            fp = (if dot then takeWhile is_digit (tl r1) else []);
            r2 = (if dot then dropWhile is_digit (tl r1) else r1)
        in if ip = [] \<and> fp = [] then NotNumeric
           else (case exponent_part r2 of
                   None \<Rightarrow> NotNumeric
                 | Some e \<Rightarrow> MV (digits_value 10 (ip @ fp)) (e - int (length fp))))"

definition based_literal :: "nat \<Rightarrow> string \<Rightarrow> mv" where
  "based_literal b ds =
     (if ds \<noteq> [] \<and> list_all (in_base b) ds then MV (digits_value b ds) 0 else NotNumeric)"

definition string_mv :: "string \<Rightarrow> mv" where
  "string_mv s =
     (case trim s of
        [] \<Rightarrow> MV 0 0
      | c # cs \<Rightarrow>
          if c = CHR ''+'' \<or> c = CHR ''-'' then unsigned_decimal cs
          else if c = CHR ''0'' \<and> cs \<noteq> [] \<and> hd cs \<in> set ''xX'' then based_literal 16 (tl cs)
          else if c = CHR ''0'' \<and> cs \<noteq> [] \<and> hd cs \<in> set ''oO'' then based_literal 8 (tl cs)
          else if c = CHR ''0'' \<and> cs \<noteq> [] \<and> hd cs \<in> set ''bB'' then based_literal 2 (tl cs)
          else unsigned_decimal (c # cs))"

definition rounds_to_zero :: "nat \<Rightarrow> int \<Rightarrow> bool" where
  "rounds_to_zero m e = (m = 0 \<or> (e < 0 \<and> m * 2 ^ 1075 \<le> 10 ^ nat (- e)))"

definition string_is_zero :: "string \<Rightarrow> bool" where
  "string_is_zero s =
     (case string_mv s of NotNumeric \<Rightarrow> False | InfiniteMV \<Rightarrow> False | MV m e \<Rightarrow> rounds_to_zero m e)"

subsection \<open>Loose comparison with false\<close>

text \<open>
  An array or object is first converted to a primitive: \<^verbatim>\<open>valueOf\<close>, then \<^verbatim>\<open>toString\<close>.
  The inherited \<^verbatim>\<open>valueOf\<close> returns the object itself, and a member named \<^verbatim>\<open>valueOf\<close>
  parsed from JSON is no function, so \<^verbatim>\<open>toString\<close> decides. A plain object answers
  \<^verbatim>\<open>"[object Object]"\<close>, which is no number, unless it has a member named \<^verbatim>\<open>toString\<close>:
  that member hides the inherited method, is not callable, and the conversion throws a
  \<^verbatim>\<open>TypeError\<close>. An array joins the strings of its elements with commas (\<^verbatim>\<open>null\<close> gives
  the empty string); converting an element throws as above.

  The joined string of two or more elements has a comma and is no number; that of the
  empty array is empty, hence 0; that of one element is the element's string. A number's
  string reads back as the same number, \<^verbatim>\<open>true\<close> and \<^verbatim>\<open>false\<close> give \<^verbatim>\<open>"true"\<close> and
  \<^verbatim>\<open>"false"\<close>, no numbers.

  A reactive proxy answers these conversions as its target does: it hands out the
  target's \<^verbatim>\<open>valueOf\<close> and \<^verbatim>\<open>toString\<close>, a member of that name is as little callable
  behind the proxy, and an array's elements join to the same string.
\<close>

fun to_string_throws :: "js_value \<Rightarrow> bool" where
  "to_string_throws (JObject members) = has_own members ''toString''"
| "to_string_throws (JArray xs) = list_ex to_string_throws xs"
| "to_string_throws (JReactive v) = to_string_throws v"
| "to_string_throws v = False"

fun joined_is_zero :: "js_value list \<Rightarrow> bool" where
  "joined_is_zero [] = True"
| "joined_is_zero [JNull] = True"
| "joined_is_zero [JBool b] = False"
| "joined_is_zero [JNumber n] = (n = Finite 0)"
| "joined_is_zero [JString s] = string_is_zero s"
| "joined_is_zero [JArray xs] = joined_is_zero xs"
| "joined_is_zero [JObject members] = False"
| "joined_is_zero [JReactive v] = joined_is_zero [v]"
| "joined_is_zero (x # y # zs) = False"

fun loose_eq_false :: "js_value \<Rightarrow> js_error + bool" where
  "loose_eq_false JNull = Inr False"
| "loose_eq_false (JBool b) = Inr (\<not> b)"
| "loose_eq_false (JNumber n) = Inr (n = Finite 0)"
| "loose_eq_false (JString s) = Inr (string_is_zero s)"
| "loose_eq_false (JArray xs) =
     (if to_string_throws (JArray xs) then Inl TypeError else Inr (joined_is_zero xs))"
| "loose_eq_false (JObject members) =
     (if to_string_throws (JObject members) then Inl TypeError else Inr False)"
| "loose_eq_false (JReactive v) = loose_eq_false v"

section \<open>The reactive cell\<close>

text \<open>
  \<^verbatim>\<open>userData.value = x\<close> goes through the setter of Vue's \<^verbatim>\<open>ref\<close> (Vue 3.3 to 3.5):

  \<^verbatim>\<open>useDirectValue = isShallow(x) || isReadonly(x)\<close>,
  \<^verbatim>\<open>x = useDirectValue ? x : toRaw(x)\<close>,
  \<^verbatim>\<open>_value = useDirectValue ? x : toReactive(x)\<close>.

  These helpers read marks off the value itself. \<^verbatim>\<open>isShallow\<close>, \<^verbatim>\<open>isReadonly\<close> test
  whether \<^verbatim>\<open>x.__v_isShallow\<close>, \<^verbatim>\<open>x.__v_isReadonly\<close> are truthy; \<^verbatim>\<open>toRaw(x)\<close> is
  \<^verbatim>\<open>toRaw(x.__v_raw)\<close> when \<^verbatim>\<open>x.__v_raw\<close> is truthy and \<^verbatim>\<open>x\<close> otherwise; \<^verbatim>\<open>toReactive\<close>
  wraps an object or array in a proxy unless it is marked readonly, raw or
  \<^verbatim>\<open>__v_skip\<close>. A parsed body can carry members of these names, and then they are read
  as marks. A proxy answers \<^verbatim>\<open>__v_raw\<close> with its target and the other marks with
  \<^verbatim>\<open>false\<close>.
\<close>

definition flag :: "js_value \<Rightarrow> string \<Rightarrow> bool" where
  "flag v k = (case raw_property v k of Some x \<Rightarrow> truthy x | None \<Rightarrow> False)"

function (sequential) toRaw :: "js_value \<Rightarrow> js_value" where
  "toRaw (JObject members) =
     (case own_property members ''__v_raw'' of
        Some raw \<Rightarrow> if truthy raw then toRaw raw else JObject members
      | None \<Rightarrow> JObject members)"
| "toRaw (JReactive v) = toRaw v"
| "toRaw v = v"
  by pat_completeness auto
termination
proof (relation "measure size")
  fix members :: "(string \<times> js_value) list" and raw
  assume "own_property members ''__v_raw'' = Some raw"
  then have "(''__v_raw'', raw) \<in> set members"
    by (auto simp: own_property_def dest: map_of_SomeD)
  then have "size_prod (\<lambda>x. 0) size (''__v_raw'', raw)
      \<le> size_list (size_prod (\<lambda>x. 0) size) members"
    by (rule size_list_estimation') simp
  then show "(raw, JObject members) \<in> measure size" by simp
qed simp_all

fun reactive :: "js_value \<Rightarrow> js_value" where
  "reactive (JObject members) =
     (if flag (JObject members) ''__v_isReadonly'' \<or> flag (JObject members) ''__v_raw'' \<or>
         flag (JObject members) ''__v_skip''
      then JObject members else JReactive (JObject members))"
| "reactive (JArray xs) = JReactive (JArray xs)"
| "reactive v = v"

definition ref_set :: "js_value \<Rightarrow> js_value" where
  "ref_set x =
     (if flag x ''__v_isShallow'' \<or> flag x ''__v_isReadonly'' then x else reactive (toRaw x))"

text \<open>
  Reading a property in the template, \<^verbatim>\<open>userData.displayName\<close>. A plain value answers
  with its own member. A proxy looks the member up in its target; a member marked as a
  ref (\<^verbatim>\<open>__v_isRef === true\<close>) is answered by its \<^verbatim>\<open>value\<close>, any other by
  \<^verbatim>\<open>toReactive\<close> of it.
\<close>

definition is_ref :: "js_value \<Rightarrow> bool" where
  "is_ref v = (raw_property v ''__v_isRef'' = Some (JBool True))"

fun get_property :: "js_value \<Rightarrow> string \<Rightarrow> js_value option" where
  "get_property (JReactive v) k =
     (case raw_property v k of
        None \<Rightarrow> None
      | Some m \<Rightarrow> if is_ref m then raw_property m ''value'' else Some (reactive m))"
| "get_property v k = raw_property v k"

section \<open>The template\<close>

text \<open>
  The rendered tree. An element has a tag, its attributes, its click handler if the
  template gives it one, and its children. \<^verbatim>\<open>RouterLink\<close>, \<^verbatim>\<open>RouterView\<close> and
  \<^verbatim>\<open>Forbidden\<close> are components defined elsewhere: a component node keeps the
  name, the props and the slot content the template passes. A \<^verbatim>\<open>v-if\<close> whose branches
  all fail leaves the comment \<^verbatim>\<open><!--v-if-->\<close>. White space between tags is dropped by the
  template compiler, and runs of white space inside a text are condensed to one blank.

  A handler \<open>OnClick stop assign\<close> stands for \<^verbatim>\<open>@click\<close>: \<open>stop\<close> is the \<^verbatim>\<open>.stop\<close>
  modifier (\<^verbatim>\<open>event.stopPropagation()\<close>), \<open>assign\<close> the value the expression stores in
  \<^verbatim>\<open>showUserOptions\<close>, if there is an expression.
\<close>

datatype display = Str string | Formatted js_value

text \<open>
  \<^verbatim>\<open>{{ e }}\<close> shows \<^verbatim>\<open>toDisplayString(e)\<close>: a string as it is, \<^verbatim>\<open>null\<close> and
  \<^verbatim>\<open>undefined\<close> as the empty string, a boolean by \<^verbatim>\<open>String\<close>. A number goes through
  \<^verbatim>\<open>String\<close> and an array or object through \<^verbatim>\<open>JSON.stringify\<close>; their digits and layout
  are not spelled out, the text is kept as \<open>Formatted v\<close>.
\<close>

fun toDisplayString :: "js_value option \<Rightarrow> display" where
  "toDisplayString None = Str []"
| "toDisplayString (Some JNull) = Str []"
| "toDisplayString (Some (JString s)) = Str s"
| "toDisplayString (Some (JBool b)) = Str (if b then ''true'' else ''false'')"
| "toDisplayString (Some v) = Formatted v"

datatype on_click = OnClick bool "bool option"

datatype vnode =
    Element string "(string \<times> string) list" "on_click option" "vnode list"
  | Component string "(string \<times> string) list" "vnode list"
  | Text display
  | Comment string

text \<open>The \<^verbatim>\<open>.options\<close> popover, lines 69 to 84 of the file.\<close>

definition options_popover :: "js_value \<Rightarrow> vnode" where
  "options_popover u =
     Element ''div'' [(''class'', ''options'')] (Some (OnClick True None))
       [Element ''div'' [(''class'', ''action'')] None
          [Element ''a'' [(''href'', ''/api/auth/signout'')] None
             [Element ''span'' [] None [Text (Str ''Sign out'')],
              Element ''span'' [(''class'', ''material-symbols-rounded'')] None
                [Text (Str ''logout'')]]],
        Element ''div'' [(''class'', ''data'')] None
          [Element ''h2'' [] None [Text (toDisplayString (get_property u ''userPrincipalName''))],
           Element ''p'' [] None [Text (toDisplayString (get_property u ''mail''))]]]"

text \<open>The \<^verbatim>\<open>.user\<close> badge, lines 64 to 85.\<close>

definition user_badge :: "js_value \<Rightarrow> bool \<Rightarrow> vnode" where
  "user_badge u vis =
     Element ''div'' [(''class'', ''user'')] (Some (OnClick True (Some True)))
       [Element ''span'' [] None [Text (toDisplayString (get_property u ''displayName''))],
        if vis then options_popover u else Comment ''v-if'']"

text \<open>The \<^verbatim>\<open>nav\<close> element, lines 39 to 63.\<close>

definition nav :: vnode where
  "nav =
     Element ''nav'' [] None
       [Component ''RouterLink'' [(''title'', ''Announcements''), (''to'', ''/announcements'')]
          [Element ''span'' [(''class'', ''material-symbols-rounded'')] None
             [Text (Str ''campaign'')],
           Element ''span'' [(''class'', ''name'')] None [Text (Str ''Announcements'')]],
        Component ''RouterLink'' [(''title'', ''Manage Discord Users''), (''to'', ''/discord/users'')]
          [Element ''span'' [(''class'', ''material-symbols-rounded'')] None
             [Text (Str ''group'')],
           Element ''span'' [(''class'', ''name'')] None [Text (Str ''Discord Users'')]],
        Component ''RouterLink'' [(''title'', ''Promotion Schedule''), (''to'', ''/promotion-schedule'')]
          [Element ''span'' [(''class'', ''material-symbols-rounded'')] None
             [Text (Str '' calendar_month '')],
           Element ''span'' [(''class'', ''name'')] None [Text (Str ''Promotion Schedule'')]]]"

text \<open>The logo link, lines 31 to 38, and the \<^verbatim>\<open>#container\<close> region, lines 88 to 90.\<close>

definition logo_link :: vnode where
  "logo_link =
     Component ''RouterLink'' [(''to'', ''/'')]
       [Element ''img''
          [(''alt'', ''Stair Logo''), (''class'', ''logo''), (''src'', ''/logo/pr.svg''),
           (''height'', ''80'')] None []]"

definition container :: vnode where
  "container = Element ''div'' [(''id'', ''container'')] None [Component ''RouterView'' [] []]"

text \<open>The \<^verbatim>\<open>#body\<close> branch, lines 26 to 91.\<close>

definition shell :: "js_value \<Rightarrow> bool \<Rightarrow> vnode" where
  "shell u vis =
     Element ''div'' [(''id'', ''body'')] None
       [Element ''aside'' [] None [logo_link, nav, user_badge u vis],
        container]"

text \<open>
  The render function of the template: \<^verbatim>\<open>v-if="userData == false"\<close>, then
  \<^verbatim>\<open>v-else-if="userData"\<close>, and no \<^verbatim>\<open>v-else\<close>. The comparison is evaluated first and may
  throw; then nothing is rendered.
\<close>

definition render :: "js_value \<Rightarrow> bool \<Rightarrow> js_error + vnode" where
  "render u vis =
     (case loose_eq_false u of
        Inl e \<Rightarrow> Inl e
      | Inr True \<Rightarrow> Inr (Component ''Forbidden'' [] [])
      | Inr False \<Rightarrow> if truthy u then Inr (shell u vis) else Inr (Comment ''v-if''))"

subsection \<open>Reading the rendered tree\<close>

fun children :: "vnode \<Rightarrow> vnode list" where
  "children (Element tag attrs h cs) = cs"
| "children (Component name props cs) = cs"
| "children (Text d) = []"
| "children (Comment c) = []"

text \<open>The node at a path of child indices, from the root.\<close>

fun node_at :: "nat list \<Rightarrow> vnode \<Rightarrow> vnode option" where
  "node_at [] v = Some v"
| "node_at (i # p) v = (if i < length (children v) then node_at p (children v ! i) else None)"

text \<open>Whether the node at a path is a component defined elsewhere.\<close>

definition lands_in_component :: "nat list \<Rightarrow> vnode \<Rightarrow> bool" where
  "lands_in_component p t =
     (case node_at p t of Some (Component name props cs) \<Rightarrow> True | _ \<Rightarrow> False)"

text \<open>The \<^verbatim>\<open>to\<close> props of the router links in a tree, in document order.\<close>

fun router_links :: "vnode \<Rightarrow> string list" where
  "router_links (Component name props cs) =
     (if name = ''RouterLink'' then (case map_of props ''to'' of Some t \<Rightarrow> [t] | None \<Rightarrow> []) else [])
     @ concat (map router_links cs)"
| "router_links (Element tag attrs h cs) = concat (map router_links cs)"
| "router_links (Text d) = []"
| "router_links (Comment c) = []"

text \<open>The elements with a given tag, in document order.\<close>

fun elements_named :: "string \<Rightarrow> vnode \<Rightarrow> vnode list" where
  "elements_named t (Element tag attrs h cs) =
     (if tag = t then [Element tag attrs h cs] else []) @ concat (map (elements_named t) cs)"
| "elements_named t (Component name props cs) = concat (map (elements_named t) cs)"
| "elements_named t (Text d) = []"
| "elements_named t (Comment c) = []"

text \<open>The navigation entries: the router links inside \<^verbatim>\<open><nav>\<close>.\<close>

definition nav_targets :: "vnode \<Rightarrow> string list" where
  "nav_targets v = concat (map router_links (elements_named ''nav'' v))"

text \<open>The texts of a tree, in document order.\<close>

fun texts :: "vnode \<Rightarrow> display list" where
  "texts (Element tag attrs h cs) = concat (map texts cs)"
| "texts (Component name props cs) = concat (map texts cs)"
| "texts (Text d) = [d]"
| "texts (Comment c) = []"

text \<open>The click handlers of a tree, in document order.\<close>

fun handlers :: "vnode \<Rightarrow> on_click list" where
  "handlers (Element tag attrs h cs) =
     (case h of Some c \<Rightarrow> [c] | None \<Rightarrow> []) @ concat (map handlers cs)"
| "handlers (Component name props cs) = concat (map handlers cs)"
| "handlers (Text d) = []"
| "handlers (Comment c) = []"

section \<open>Clicks\<close>

text \<open>
  A click is dispatched to its target and bubbles through the ancestors up to
  \<^verbatim>\<open>document.body\<close>. \<open>handle v (vis, bubbling)\<close> is what the handler of \<open>v\<close> does
  when the event arrives with \<^verbatim>\<open>showUserOptions = vis\<close>: nothing if propagation was
  stopped below; otherwise the \<^verbatim>\<open>.stop\<close> modifier stops it and the expression, if any, is
  assigned.
\<close>

fun handle :: "vnode \<Rightarrow> bool \<times> bool \<Rightarrow> bool \<times> bool" where
  "handle (Element tag attrs (Some (OnClick stop assign)) cs) (vis, bubbling) =
     (if bubbling then ((case assign of Some b \<Rightarrow> b | None \<Rightarrow> vis), \<not> stop) else (vis, False))"
| "handle v st = st"

text \<open>
  \<open>propagate ext p v vis\<close>: the click whose target is the node at path \<open>p\<close> below
  \<open>v\<close>, after it has passed \<open>v\<close>. Only elements and components are targets; a text
  or comment is none, and no node is none. What happens inside the DOM of a component
  defined elsewhere (\<^verbatim>\<open>RouterView\<close>, \<^verbatim>\<open>Forbidden\<close>, \<^verbatim>\<open>RouterLink\<close>) is not in this
  file: \<open>ext\<close> says whether, for a click that lands there, that component's own handlers
  stop the propagation. Slot content passes through its \<^verbatim>\<open>RouterLink\<close>, whose handler
  navigates and does not stop the event.
\<close>

fun propagate :: "bool \<Rightarrow> nat list \<Rightarrow> vnode \<Rightarrow> bool \<Rightarrow> (bool \<times> bool) option" where
  "propagate ext [] v vis =
     (case v of
        Element tag attrs h cs \<Rightarrow> Some (handle v (vis, True))
      | Component name props cs \<Rightarrow> Some (vis, \<not> ext)
      | Text d \<Rightarrow> None
      | Comment c \<Rightarrow> None)"
| "propagate ext (i # p) v vis =
     (if i < length (children v)
      then map_option (handle v) (propagate ext p (children v ! i) vis)
      else None)"

section \<open>The component\<close>

text \<open>
  The two cells of \<^verbatim>\<open><script setup>\<close>, the click listeners the component has added to
  \<^verbatim>\<open>document.body\<close>, how far the \<^verbatim>\<open>onMounted\<close> callback has run, and whether the
  component is in the page.
\<close>

datatype phase = Created | AwaitFetch | AwaitJson | Completed | Failed

record component =
  userData :: js_value
  showUserOptions :: bool
  bodyClickListeners :: nat
  phase :: phase
  mounted :: bool

definition init :: component where
  "init = \<lparr>userData = JNull, showUserOptions = False, bodyClickListeners = 0,
           phase = Created, mounted = False\<rparr>"

text \<open>\<^verbatim>\<open>res.ok\<close>: the status is in the range 200 to 299.\<close>

definition ok :: "nat \<Rightarrow> bool" where
  "ok status = (200 \<le> status \<and> status \<le> 299)"

text \<open>
  \<^verbatim>\<open>document.body.addEventListener("click", () => { showUserOptions.value = false })\<close>,
  and what the listeners do when a click arrives at the body.
\<close>

definition addEventListener :: "component \<Rightarrow> component" where
  "addEventListener s = s\<lparr>bodyClickListeners := Suc (bodyClickListeners s)\<rparr>"

definition body_click :: "component \<Rightarrow> component" where
  "body_click s = (if 0 < bodyClickListeners s then s\<lparr>showUserOptions := False\<rparr> else s)"

text \<open>
  A click lands on a node of the rendered tree, or on an element of the body outside it
  (the body itself, the container the application is mounted in). \<open>click\<close> gives the
  state after the click and whether the event arrived at \<^verbatim>\<open>document.body\<close>; it is
  \<open>None\<close> when there is no such element to click: the component is not in the page, the
  render function threw, or the path leads to no element.
\<close>

datatype click_target = InTree "nat list" | InBody

definition click :: "component \<Rightarrow> click_target \<Rightarrow> bool \<Rightarrow> (component \<times> bool) option" where
  "click s t ext =
     (case t of
        InBody \<Rightarrow> Some (body_click s, True)
      | InTree p \<Rightarrow>
          if \<not> mounted s then None
          else (case render (userData s) (showUserOptions s) of
                  Inl e \<Rightarrow> None
                | Inr tree \<Rightarrow>
                    (case propagate ext p tree (showUserOptions s) of
                       None \<Rightarrow> None
                     | Some (vis, bubbling) \<Rightarrow>
                         if bubbling then Some (body_click (s\<lparr>showUserOptions := vis\<rparr>), True)
                         else Some (s\<lparr>showUserOptions := vis\<rparr>, False))))"

text \<open>
  What can happen to the component. \<^verbatim>\<open>onMounted(async () => { ... })\<close> runs up to
  \<^verbatim>\<open>await fetch("/api/auth/me")\<close>; when the fetch resolves with a response the callback
  goes on, through \<^verbatim>\<open>await res.json()\<close> if \<^verbatim>\<open>res.ok\<close>; when either promise rejects the
  callback ends there, as nothing catches the rejection. Both assignments to
  \<^verbatim>\<open>userData.value\<close> go through the setter of the cell, \<open>ref_set\<close>; \<open>userData\<close> is what
  the template then reads from the cell. An event that cannot happen in
  the current phase leaves the state as it is. The callback has no guard for a component
  that was unmounted meanwhile, and no hook removes the listener.
\<close>

datatype event =
    Mount
  | FetchResolved nat
  | FetchRejected
  | JsonResolved js_value
  | JsonRejected
  | Click click_target bool
  | Unmount

fun step :: "component \<Rightarrow> event \<Rightarrow> component" where
  "step s Mount =
     (if phase s = Created then s\<lparr>phase := AwaitFetch, mounted := True\<rparr> else s)"
| "step s (FetchResolved status) =
     (if phase s = AwaitFetch then
        (if ok status then s\<lparr>phase := AwaitJson\<rparr>
         else addEventListener (s\<lparr>userData := ref_set (JBool False), phase := Completed\<rparr>))
      else s)"
| "step s FetchRejected = (if phase s = AwaitFetch then s\<lparr>phase := Failed\<rparr> else s)"
| "step s (JsonResolved v) =
     (if phase s = AwaitJson
      then addEventListener (s\<lparr>userData := ref_set v, phase := Completed\<rparr>)
      else s)"
| "step s JsonRejected = (if phase s = AwaitJson then s\<lparr>phase := Failed\<rparr> else s)"
| "step s (Click t ext) = (case click s t ext of Some (s', arrived) \<Rightarrow> s' | None \<Rightarrow> s)"
| "step s Unmount = s\<lparr>mounted := False\<rparr>"

definition run :: "event list \<Rightarrow> component" where
  "run es = foldl step init es"

text \<open>The output of the render function in a state.\<close>

definition view :: "component \<Rightarrow> js_error + vnode" where
  "view s = render (userData s) (showUserOptions s)"

text \<open>
  The three states of the identity, read off the two tests of the template: the
  restricted view is shown (absent), the shell is shown (present), neither (unknown).
\<close>

datatype auth_state = Unknown | Absent | Present

definition auth_state :: "js_value \<Rightarrow> auth_state" where
  "auth_state u =
     (case loose_eq_false u of
        Inl e \<Rightarrow> Unknown
      | Inr True \<Rightarrow> Absent
      | Inr False \<Rightarrow> if truthy u then Present else Unknown)"

text \<open>How often a run leaves the unknown state.\<close>

fun transitions :: "component \<Rightarrow> event list \<Rightarrow> nat" where
  "transitions s [] = 0"
| "transitions s (e # es) =
     (if auth_state (userData s) = Unknown \<and> auth_state (userData (step s e)) \<noteq> Unknown
      then 1 else 0) + transitions (step s e) es"

text \<open>
  What holds in every state a run reaches: until the callback has finished, \<^verbatim>\<open>userData\<close>
  is \<^verbatim>\<open>null\<close> and no listener is registered; when it has, one listener is; the popover
  flag is set only where the shell is shown.
\<close>

definition invariant :: "component \<Rightarrow> bool" where
  "invariant s = ((phase s \<noteq> Completed \<longrightarrow> userData s = JNull \<and> bodyClickListeners s = 0) \<and>
            (phase s = Completed \<longrightarrow> bodyClickListeners s = 1) \<and>
            (showUserOptions s \<longrightarrow> auth_state (userData s) = Present) \<and>
            (phase s = Created \<longrightarrow> \<not> mounted s))"

text \<open>
  The scenario of a signed-in user: a response with status 200 whose body is a session.
\<close>

definition example_session :: js_value where
  "example_session =
     JObject [(''displayName'', JString ''A. User''),
              (''userPrincipalName'', JString ''auser@example.com''),
              (''mail'', JString ''auser@example.com'')]"

definition signed_in :: "event list" where
  "signed_in = [Mount, FetchResolved 200, JsonResolved example_session]"

section \<open>Clicks on the shell\<close>

lemma handle_no_handler: "handlers v = [] \<Longrightarrow> handle v st = st"
  by (cases v; cases st) (auto split: option.splits)

lemma handlers_child:
  "handlers v = [] \<Longrightarrow> i < length (children v) \<Longrightarrow> handlers (children v ! i) = []"
  by (cases v) (auto split: option.splits)

lemma lands_in_component_Cons:
  "i < length (children v) \<Longrightarrow>
   lands_in_component (i # p) v = lands_in_component p (children v ! i)"
  by (simp add: lands_in_component_def)

lemma propagate_handler_free:
  "handlers v = [] \<Longrightarrow> propagate ext p v vis = Some (vis', b) \<Longrightarrow>
   vis' = vis \<and> b = (\<not> (ext \<and> lands_in_component p v))"
proof (induction p arbitrary: v)
  case Nil
  then show ?case
    by (cases v) (auto simp: lands_in_component_def split: option.splits)
next
  case (Cons i p)
  from Cons.prems(2) have len: "i < length (children v)"
    by (simp split: if_splits)
  with Cons.prems(2) obtain r where r: "propagate ext p (children v ! i) vis = Some r"
    and h: "handle v r = (vis', b)"
    by auto
  from Cons.prems(1) have hv: "handle v r = r" by (rule handle_no_handler)
  from Cons.prems(1) len have "handlers (children v ! i) = []" by (rule handlers_child)
  with Cons.IH [of "children v ! i"] r h hv lands_in_component_Cons [OF len, of p]
  show ?case by (cases r) simp
qed

lemma handlers_nav: "handlers nav = []"
  by (simp add: nav_def)

lemma handlers_logo_link: "handlers logo_link = []"
  by (simp add: logo_link_def)

lemma handlers_container: "handlers container = []"
  by (simp add: container_def)

lemma map_handle_plain: "map_option (handle (Element tag attrs None cs)) x = x"
  by (cases x) auto

lemma propagate_shell_step:
  "propagate ext (0 # j # q) (shell u vis) vis0 =
     (if j < 3 then propagate ext q ([logo_link, nav, user_badge u vis] ! j) vis0 else None)"
  by (simp add: shell_def map_handle_plain)

lemma propagate_shell_container:
  "propagate ext (Suc 0 # q) (shell u vis) vis0 = propagate ext q container vis0"
  by (simp add: shell_def map_handle_plain)

lemma lands_shell_step:
  "j < 3 \<Longrightarrow>
   lands_in_component (0 # j # q) (shell u vis) =
     lands_in_component q ([logo_link, nav, user_badge u vis] ! j)"
  by (simp add: lands_in_component_def shell_def)

lemma lands_shell_container:
  "lands_in_component (Suc 0 # q) (shell u vis) = lands_in_component q container"
  by (simp add: lands_in_component_def shell_def)

lemma propagate_outside_badge:
  assumes "take 2 p \<noteq> [0, 2]" and "propagate ext p (shell u vis) vis0 = Some r"
  shows "r = (vis0, \<not> (ext \<and> lands_in_component p (shell u vis)))"
proof -
  have free: "\<And>v q. handlers v = [] \<Longrightarrow> propagate ext q v vis0 = Some r \<Longrightarrow>
      r = (vis0, \<not> (ext \<and> lands_in_component q v))"
    using propagate_handler_free [of _ ext _ vis0 "fst r" "snd r"] by (cases r) auto
  consider "p = []" | "p = [0]" | q where "p = 0 # 0 # q" | q where "p = 0 # 1 # q"
    | q where "p = 1 # q" | i q where "p = i # q" "1 < i" | j q where "p = 0 # j # q" "2 < j"
    using assms(1)
    by (cases p; cases "hd p"; cases "tl p"; cases "hd (tl p)"; cases "hd (tl p) - 1"; cases "hd (tl p) - 2"; cases "hd p - 1") auto
  then show ?thesis
  proof cases
    case 1 with assms(2) show ?thesis by (simp add: shell_def lands_in_component_def)
  next
    case 2 with assms(2) show ?thesis by (simp add: shell_def lands_in_component_def)
  next
    case 3
    with assms(2) have "propagate ext q logo_link vis0 = Some r"
      by (simp add: propagate_shell_step del: propagate.simps)
    from free [OF handlers_logo_link this] 3 show ?thesis
      using lands_shell_step [of 0 q u vis] by simp
  next
    case 4
    with assms(2) have "propagate ext q nav vis0 = Some r"
      by (simp add: propagate_shell_step del: propagate.simps)
    from free [OF handlers_nav this] 4 show ?thesis
      using lands_shell_step [of 1 q u vis] by simp
  next
    case 5
    with assms(2) have "propagate ext q container vis0 = Some r"
      by (simp add: propagate_shell_container del: propagate.simps)
    from free [OF handlers_container this] 5 show ?thesis
      by (simp add: lands_shell_container)
  next
    case 6 with assms(2) show ?thesis by (simp add: shell_def)
  next
    case 7 with assms(2) show ?thesis by (simp add: propagate_shell_step del: propagate.simps)
  qed
qed

lemma handlers_popover_children:
  "i < length (children (options_popover u)) \<Longrightarrow> handlers (children (options_popover u) ! i) = []"
  by (cases i; cases "i - 1") (auto simp: options_popover_def)

lemma propagate_popover:
  assumes "propagate ext q (options_popover u) vis0 = Some r"
  shows "r = (vis0, False)"
proof (cases q)
  case Nil
  with assms show ?thesis by (simp add: options_popover_def)
next
  case (Cons i q')
  with assms have len: "i < length (children (options_popover u))"
    by (simp split: if_splits)
  with Cons assms obtain r' where r': "propagate ext q' (children (options_popover u) ! i) vis0 = Some r'"
    and h: "handle (options_popover u) r' = r"
    by auto
  from propagate_handler_free [OF handlers_popover_children [OF len], of ext q' vis0 "fst r'" "snd r'"] r'
  have "fst r' = vis0" by simp
  with h show ?thesis by (cases r') (auto simp: options_popover_def)
qed

lemma propagate_name_span:
  assumes "propagate ext q (Element ''span'' [] None [Text d]) vis0 = Some r"
  shows "r = (vis0, True)"
  using assms by (cases q; cases "tl q") (auto split: if_splits)

lemma badge_children:
  "children (user_badge u vis) =
     [Element ''span'' [] None [Text (toDisplayString (get_property u ''displayName''))],
      if vis then options_popover u else Comment ''v-if'']"
  by (simp add: user_badge_def)

lemma handle_badge: "handle (user_badge u vis) (v, b) = (if b then (True, False) else (v, False))"
  by (simp add: user_badge_def)

lemma propagate_comment: "propagate ext q (Comment c) vis0 = None"
  by (cases q) auto

lemma propagate_badge:
  assumes "propagate ext q (user_badge u vis) vis0 = Some r"
  shows "if take 1 q = [1] then vis \<and> r = (vis0, False) else r = (True, False)"
proof (cases q)
  case Nil
  with assms show ?thesis by (simp add: user_badge_def)
next
  case (Cons i q')
  with assms have "i < 2" by (simp add: badge_children split: if_splits)
  then consider "i = 0" | "i = 1" by arith
  then show ?thesis
  proof cases
    case 1
    with Cons assms obtain r' where
      "propagate ext q' (Element ''span'' [] None [Text (toDisplayString (get_property u ''displayName''))]) vis0 = Some r'"
      "handle (user_badge u vis) r' = r"
      by (auto simp: badge_children)
    then have "r' = (vis0, True)" "handle (user_badge u vis) r' = r"
      by (auto dest: propagate_name_span)
    with 1 Cons show ?thesis
      by (simp add: handle_badge)
  next
    case 2
    with Cons assms obtain r' where
      r': "propagate ext q' (if vis then options_popover u else Comment ''v-if'') vis0 = Some r'"
      and h: "handle (user_badge u vis) r' = r"
      by (auto simp: badge_children)
    from r' have vis: vis by (auto simp: propagate_comment split: if_splits)
    with r' propagate_popover [of ext q' u vis0 r'] have "r' = (vis0, False)" by simp
    with h vis 2 Cons show ?thesis by (simp add: handle_badge)
  qed
qed

lemma propagate_in_badge:
  assumes "take 2 p = [0, 2]" and "propagate ext p (shell u vis) vis0 = Some r"
  shows "if take 3 p = [0, 2, 1] then vis \<and> r = (vis0, False) else r = (True, False)"
proof -
  from assms(1) obtain q where p: "p = 0 # 2 # q"
    by (cases p; cases "tl p") auto
  with assms(2) have "propagate ext q (user_badge u vis) vis0 = Some r"
    by (simp add: propagate_shell_step del: propagate.simps)
  from propagate_badge [OF this] p show ?thesis by (cases q) auto
qed

lemma node_at_badge: "node_at [0, 2] (shell u vis) = Some (user_badge u vis)"
  by (simp add: shell_def)

lemma node_at_popover: "node_at [0, 2, 1] (shell u True) = Some (options_popover u)"
  by (simp add: shell_def user_badge_def)

lemma propagate_badge_click: "propagate ext [0, 2] (shell u vis) vis0 = Some (True, False)"
  by (simp add: shell_def user_badge_def)

section \<open>Runs\<close>

lemma render_null: "render JNull vis = Inr (Comment ''v-if'')"
  by (simp add: render_def)

lemma ref_set_false: "ref_set (JBool False) = JBool False"
  by (simp add: ref_set_def flag_def)

lemma render_false: "render (JBool False) vis = Inr (Component ''Forbidden'' [] [])"
  by (simp add: render_def)

lemma auth_state_null: "auth_state JNull = Unknown"
  by (simp add: auth_state_def)

lemma auth_state_false: "auth_state (JBool False) = Absent"
  by (simp add: auth_state_def)

lemma render_present: "auth_state u = Present \<Longrightarrow> render u vis = Inr (shell u vis)"
  by (auto simp: auth_state_def render_def split: sum.splits bool.splits if_splits)

lemma render_absent: "auth_state u = Absent \<Longrightarrow> render u vis = Inr (Component ''Forbidden'' [] [])"
  by (auto simp: auth_state_def render_def split: sum.splits bool.splits if_splits)

lemma render_unknown:
  "auth_state u = Unknown \<Longrightarrow> render u vis = Inr (Comment ''v-if'') \<or> render u vis = Inl TypeError"
  by (auto simp: auth_state_def render_def split: sum.splits bool.splits if_splits) (metis js_error.exhaust)

lemma propagate_forbidden:
  "propagate ext p (Component ''Forbidden'' [] []) vis = Some r \<Longrightarrow> p = [] \<and> r = (vis, \<not> ext)"
  by (cases p) (auto simp:)

lemma click_body: "click s InBody ext = Some (body_click s, True)"
  by (simp add: click_def)

lemma click_tree_present:
  "mounted s \<Longrightarrow> auth_state (userData s) = Present \<Longrightarrow>
   click s (InTree p) ext =
     (case propagate ext p (shell (userData s) (showUserOptions s)) (showUserOptions s) of
        None \<Rightarrow> None
      | Some (vis, bubbling) \<Rightarrow>
          if bubbling then Some (body_click (s\<lparr>showUserOptions := vis\<rparr>), True)
          else Some (s\<lparr>showUserOptions := vis\<rparr>, False))"
  by (simp add: click_def render_present)

lemma click_tree_absent:
  assumes "auth_state (userData s) = Absent" and "click s (InTree p) ext = Some (s', a)"
  shows "p = [] \<and> (if ext then s' = s \<and> \<not> a else s' = body_click s \<and> a)"
proof -
  from assms have m: "mounted s"
    by (auto simp: click_def split: if_splits)
  with assms obtain r where r: "propagate ext p (Component ''Forbidden'' [] []) (showUserOptions s) = Some r"
    by (auto simp: click_def render_absent split: option.splits)
  then have p: "p = []" and rv: "r = (showUserOptions s, \<not> ext)"
    by (auto dest: propagate_forbidden)
  with assms m r show ?thesis
    by (auto simp: click_def render_absent)
qed

lemma click_tree_unknown:
  "auth_state (userData s) = Unknown \<Longrightarrow> click s (InTree p) ext = None"
  using render_unknown [of "userData s" "showUserOptions s"]
  by (auto simp: click_def propagate_comment split: if_splits option.splits)

lemma body_click_changes:
  "\<exists>vis. body_click s = s\<lparr>showUserOptions := vis\<rparr> \<and> (vis \<longrightarrow> showUserOptions s)"
proof (cases "0 < bodyClickListeners s")
  case True
  then have "body_click s = s\<lparr>showUserOptions := False\<rparr>" by (simp add: body_click_def)
  then show ?thesis by blast
next
  case False
  then have "body_click s = s\<lparr>showUserOptions := showUserOptions s\<rparr>"
    by (simp add: body_click_def)
  then show ?thesis by blast
qed

lemma unchanged_changes:
  "\<exists>vis. s = s\<lparr>showUserOptions := vis\<rparr> \<and> (vis \<longrightarrow> showUserOptions s)"
  by (rule exI [of _ "showUserOptions s"]) simp

lemma click_changes:
  assumes "click s t ext = Some (s', a)"
  shows "\<exists>vis. s' = s\<lparr>showUserOptions := vis\<rparr> \<and>
           (vis \<longrightarrow> showUserOptions s \<or> auth_state (userData s) = Present)"
proof (cases t)
  case InBody
  with assms have "s' = body_click s" by (simp add: click_def)
  with body_click_changes [of s] show ?thesis by auto
next
  case (InTree p)
  show ?thesis
  proof (cases "auth_state (userData s)")
    case Unknown
    with InTree assms show ?thesis by (simp add: click_tree_unknown)
  next
    case Absent
    with InTree assms have "s' = body_click s \<or> s' = s"
      by (auto dest: click_tree_absent split: if_splits)
    with body_click_changes [of s] unchanged_changes [of s] show ?thesis by auto
  next
    case Present
    from InTree assms have
      "\<exists>vis. s' = body_click (s\<lparr>showUserOptions := vis\<rparr>) \<or> s' = s\<lparr>showUserOptions := vis\<rparr>"
      by (auto simp: click_def split: if_splits option.splits sum.splits)
    then obtain vis where
      "s' = body_click (s\<lparr>showUserOptions := vis\<rparr>) \<or> s' = s\<lparr>showUserOptions := vis\<rparr>" ..
    with body_click_changes [of "s\<lparr>showUserOptions := vis\<rparr>"] Present show ?thesis
      by auto
  qed
qed

lemma step_click_fields:
  "userData (step s (Click t ext)) = userData s \<and> phase (step s (Click t ext)) = phase s \<and>
   bodyClickListeners (step s (Click t ext)) = bodyClickListeners s \<and>
   mounted (step s (Click t ext)) = mounted s \<and>
   (showUserOptions (step s (Click t ext)) \<longrightarrow>
      showUserOptions s \<or> auth_state (userData s) = Present)"
proof (cases "click s t ext")
  case None
  then show ?thesis by simp
next
  case (Some r)
  obtain s' a where "r = (s', a)" by (cases r)
  with Some click_changes [of s t ext s' a] show ?thesis by auto
qed

lemma inv_init: "invariant init"
  by (simp add: invariant_def init_def)

lemma inv_step: "invariant s \<Longrightarrow> invariant (step s e)"
proof (cases e)
  case (Click t ext)
  assume "invariant s"
  with step_click_fields [of s t ext] Click show ?thesis
    by (auto simp: invariant_def)
qed (auto simp: invariant_def addEventListener_def auth_state_null auth_state_false)

lemma run_snoc: "run (es @ [e]) = step (run es) e"
  by (simp add: run_def)

lemma run_Nil: "run [] = init"
  by (simp add: run_def)

lemma inv_run: "invariant (run es)"
  by (induction es rule: rev_induct) (simp_all add: run_Nil run_snoc inv_init inv_step)

lemma inv_foldl: "invariant s \<Longrightarrow> invariant (foldl step s es)"
  by (induction es arbitrary: s) (simp_all add: inv_step)

lemma run_append: "run (es @ es') = foldl step (run es) es'"
  by (simp add: run_def)

lemma run_Cons_append: "run (es @ e # es') = foldl step (step (run es) e) es'"
  by (simp add: run_def)

lemma step_click_phase: "phase (step s (Click t ext)) = phase s"
  using step_click_fields [of s t ext] by simp

lemma step_click_userData: "userData (step s (Click t ext)) = userData s"
  using step_click_fields [of s t ext] by simp

lemma step_click_listeners: "bodyClickListeners (step s (Click t ext)) = bodyClickListeners s"
  using step_click_fields [of s t ext] by simp

lemma step_completed:
  "phase s = Completed \<Longrightarrow> phase (step s e) = Completed \<and> userData (step s e) = userData s"
  by (cases e) (simp_all add: step_click_phase step_click_userData del: step.simps(6))

lemma step_failed: "phase s = Failed \<Longrightarrow> phase (step s e) = Failed"
  by (cases e) (simp_all add: step_click_phase del: step.simps(6))

lemma foldl_completed:
  "phase s = Completed \<Longrightarrow>
   phase (foldl step s es) = Completed \<and> userData (foldl step s es) = userData s"
  by (induction es arbitrary: s) (simp_all add: step_completed)

lemma foldl_failed: "phase s = Failed \<Longrightarrow> phase (foldl step s es) = Failed"
  by (induction es arbitrary: s) (simp_all add: step_failed)

lemma unresolved_null: "phase (run es) \<noteq> Completed \<Longrightarrow> userData (run es) = JNull"
  using inv_run [of es] by (simp add: invariant_def)

lemma shell_not_comment: "shell u vis \<noteq> Comment c"
  by (simp add: shell_def)

lemma shell_not_forbidden: "shell u vis \<noteq> Component ''Forbidden'' [] []"
  by (simp add: shell_def)

section \<open>The claims\<close>

text \<open>
  C3. Before the identity fetch has resolved, that is while the mount callback has not
  started or waits for the fetch or for the body, \<^verbatim>\<open>userData\<close> is still \<^verbatim>\<open>null\<close> and the
  render function skips both branches: the output is the empty \<^verbatim>\<open>v-if\<close> comment, neither
  the restricted view nor the shell.
\<close>

theorem unresolved_renders_nothing:
  assumes "phase (run es) \<in> {Created, AwaitFetch, AwaitJson}"
  shows "userData (run es) = JNull \<and> auth_state (userData (run es)) = Unknown \<and>
         view (run es) = Inr (Comment ''v-if'') \<and>
         view (run es) \<noteq> Inr (Component ''Forbidden'' [] []) \<and>
         (\<forall>u vis. view (run es) \<noteq> Inr (shell u vis))"
proof -
  from assms have "phase (run es) \<noteq> Completed" by auto
  then have null: "userData (run es) = JNull" by (rule unresolved_null)
  then have v: "view (run es) = Inr (Comment ''v-if'')"
    by (simp add: view_def render_null)
  with null show ?thesis
    by (simp add: auth_state_null shell_def)
qed

theorem unresolved_renders_nothing_witness:
  "phase (run [Mount]) \<in> {Created, AwaitFetch, AwaitJson} \<and>
   userData (run [Mount]) = JNull \<and>
   view (run [Mount]) = Inr (Comment ''v-if'') \<and>
   view (run [Mount, FetchResolved 200]) = Inr (Comment ''v-if'')"
  using unresolved_renders_nothing [of "[Mount]"]
    unresolved_renders_nothing [of "[Mount, FetchResolved 200]"]
  by (simp add: run_def init_def ok_def)

text \<open>A response with a failure status: the state from then on.\<close>

lemma failure_status_state:
  assumes "phase (run es) = AwaitFetch" and "\<not> ok status"
  shows "userData (run (es @ FetchResolved status # later)) = JBool False \<and>
         phase (run (es @ FetchResolved status # later)) = Completed"
proof -
  let ?s = "step (run es) (FetchResolved status)"
  from assms have "phase ?s = Completed" "userData ?s = JBool False"
    by (simp_all add: addEventListener_def ref_set_false)
  with foldl_completed [of ?s later] show ?thesis
    by (simp add: run_Cons_append)
qed

lemma forbidden_no_links:
  "router_links (Component ''Forbidden'' [] []) = [] \<and>
   nav_targets (Component ''Forbidden'' [] []) = [] \<and>
   elements_named ''nav'' (Component ''Forbidden'' [] []) = []"
  by (simp add: nav_targets_def)

text \<open>
  C5. When the identity fetch resolves with a status outside 200 to 299, \<^verbatim>\<open>userData\<close>
  becomes \<^verbatim>\<open>false\<close> and the render function gives the \<^verbatim>\<open>Forbidden\<close> component with no
  props and no slot content, then and after every later event. It never gives the shell,
  and what it gives holds no \<^verbatim>\<open>nav\<close> element and none of the template's router links.
\<close>

theorem failure_status_renders_forbidden:
  assumes "phase (run es) = AwaitFetch" and "\<not> ok status"
  shows "userData (run (es @ [FetchResolved status])) = JBool False \<and>
         view (run (es @ [FetchResolved status])) = Inr (Component ''Forbidden'' [] []) \<and>
         userData (run (es @ FetchResolved status # later)) = JBool False \<and>
         view (run (es @ FetchResolved status # later)) = Inr (Component ''Forbidden'' [] []) \<and>
         (\<forall>u vis. view (run (es @ FetchResolved status # later)) \<noteq> Inr (shell u vis)) \<and>
         (\<forall>t. view (run (es @ FetchResolved status # later)) = Inr t \<longrightarrow>
              router_links t = [] \<and> nav_targets t = [] \<and> elements_named ''nav'' t = [])"
proof -
  from failure_status_state [OF assms, of "[]"] failure_status_state [OF assms, of later]
  have u: "userData (run (es @ [FetchResolved status])) = JBool False"
    "userData (run (es @ FetchResolved status # later)) = JBool False"
    by simp_all
  then have v: "view (run (es @ [FetchResolved status])) = Inr (Component ''Forbidden'' [] [])"
    "view (run (es @ FetchResolved status # later)) = Inr (Component ''Forbidden'' [] [])"
    by (simp_all add: view_def render_false)
  from v(2) have "\<forall>u vis. view (run (es @ FetchResolved status # later)) \<noteq> Inr (shell u vis)"
    by (simp add: shell_not_forbidden [symmetric])
  moreover from v(2) forbidden_no_links
  have "\<forall>t. view (run (es @ FetchResolved status # later)) = Inr t \<longrightarrow>
      router_links t = [] \<and> nav_targets t = [] \<and> elements_named ''nav'' t = []"
    by auto
  ultimately show ?thesis using u v by blast
qed

theorem failure_status_renders_forbidden_witness:
  "phase (run [Mount]) = AwaitFetch \<and> \<not> ok 403 \<and>
   userData (run ([Mount] @ [FetchResolved 403])) = JBool False \<and>
   view (run ([Mount] @ [FetchResolved 403])) = Inr (Component ''Forbidden'' [] []) \<and>
   view (run ([Mount] @ FetchResolved 403 # [Click InBody False, Click (InTree []) False, Unmount]))
     = Inr (Component ''Forbidden'' [] [])"
  using failure_status_renders_forbidden
    [of "[Mount]" 403 "[Click InBody False, Click (InTree []) False, Unmount]"]
  by (simp add: run_def init_def ok_def)

text \<open>A rejected fetch: the callback ends, the state from then on.\<close>

lemma fetch_rejected_state:
  assumes "phase (run es) = AwaitFetch"
  shows "phase (run (es @ FetchRejected # later)) = Failed \<and>
         userData (run (es @ FetchRejected # later)) = JNull \<and>
         bodyClickListeners (run (es @ FetchRejected # later)) = 0"
proof -
  from assms have "phase (step (run es) FetchRejected) = Failed" by simp
  then have "phase (run (es @ FetchRejected # later)) = Failed"
    by (simp add: run_Cons_append foldl_failed)
  with inv_run [of "es @ FetchRejected # later"] show ?thesis
    by (simp add: invariant_def)
qed

text \<open>
  C1, as the code has it. A response with a status outside 200 to 299 ends in the absent
  state whatever the status: \<^verbatim>\<open>userData\<close> is \<^verbatim>\<open>false\<close> and the restricted view is
  rendered, for 401 and 5xx alike. A rejected fetch promise is not treated as that: nothing
  catches it, the callback ends at the \<^verbatim>\<open>await\<close>, \<^verbatim>\<open>userData\<close> stays \<^verbatim>\<open>null\<close>, the output
  stays empty and no click listener is registered.
\<close>

theorem identity_failure_outcomes:
  assumes "phase (run es) = AwaitFetch"
  shows "(\<not> ok status \<longrightarrow>
            userData (run (es @ FetchResolved status # later)) = JBool False \<and>
            auth_state (userData (run (es @ FetchResolved status # later))) = Absent \<and>
            view (run (es @ FetchResolved status # later)) = Inr (Component ''Forbidden'' [] [])) \<and>
         userData (run (es @ FetchRejected # later)) = JNull \<and>
         auth_state (userData (run (es @ FetchRejected # later))) = Unknown \<and>
         view (run (es @ FetchRejected # later)) = Inr (Comment ''v-if'') \<and>
         bodyClickListeners (run (es @ FetchRejected # later)) = 0"
proof -
  have "userData (run (es @ FetchResolved status # later)) = JBool False" if "\<not> ok status"
    using failure_status_state [OF assms that, of later] by simp
  moreover note fetch_rejected_state [OF assms, of later]
  ultimately show ?thesis
    by (simp add: view_def render_false render_null auth_state_false auth_state_null)
qed

theorem identity_failure_outcomes_witness:
  "phase (run [Mount]) = AwaitFetch \<and> \<not> ok 401 \<and> \<not> ok 503 \<and>
   userData (run ([Mount] @ FetchResolved 401 # [Click InBody False])) = JBool False \<and>
   view (run ([Mount] @ FetchResolved 401 # [Click InBody False])) = Inr (Component ''Forbidden'' [] []) \<and>
   view (run ([Mount] @ FetchResolved 503 # [Click InBody False])) = Inr (Component ''Forbidden'' [] []) \<and>
   userData (run ([Mount] @ FetchRejected # [Click InBody False])) = JNull \<and>
   view (run ([Mount] @ FetchRejected # [Click InBody False])) = Inr (Comment ''v-if'') \<and>
   bodyClickListeners (run ([Mount] @ FetchRejected # [Click InBody False])) = 0"
  using identity_failure_outcomes [of "[Mount]" 401 "[Click InBody False]"]
    identity_failure_outcomes [of "[Mount]" 503 "[Click InBody False]"]
  by (simp add: run_def init_def ok_def)

text \<open>
  C1 as stated fails: after the mount and a rejected fetch, \<^verbatim>\<open>userData\<close> is not
  \<^verbatim>\<open>false\<close> and the restricted view is not rendered.
\<close>

theorem fetch_rejection_counterexample:
  "userData (run [Mount, FetchRejected]) \<noteq> JBool False \<and>
   view (run [Mount, FetchRejected]) \<noteq> Inr (Component ''Forbidden'' [] []) \<and>
   view (run [Mount, FetchRejected]) = Inr (Comment ''v-if'')"
  by (simp add: run_def init_def view_def render_def)

text \<open>
  An object, plain or behind its proxy, is never loosely equal to \<^verbatim>\<open>false\<close> and is
  truthy, so it renders the shell; unless a member named \<^verbatim>\<open>toString\<close> makes the
  comparison throw.
\<close>

lemma render_object:
  "\<not> has_own members ''toString'' \<Longrightarrow> u = JObject members \<or> u = JReactive (JObject members) \<Longrightarrow>
   render u vis = Inr (shell u vis)"
  by (auto simp: render_def)

lemma render_object_toString:
  "has_own members ''toString'' \<Longrightarrow> u = JObject members \<or> u = JReactive (JObject members) \<Longrightarrow>
   render u vis = Inl TypeError"
  by (auto simp: render_def)

text \<open>What the cell stores for an object that carries no truthy \<^verbatim>\<open>__v_raw\<close> member.\<close>

lemma toRaw_object:
  "\<not> flag (JObject members) ''__v_raw'' \<Longrightarrow> toRaw (JObject members) = JObject members"
  by (simp add: flag_def split: option.splits)

lemma ref_set_object:
  "\<not> flag (JObject members) ''__v_raw'' \<Longrightarrow>
   ref_set (JObject members) = JObject members \<or>
   ref_set (JObject members) = JReactive (JObject members)"
  by (simp add: ref_set_def toRaw_object del: toRaw.simps(1))

lemma get_property_string:
  "own_property members k = Some (JString n) \<Longrightarrow>
   u = JObject members \<or> u = JReactive (JObject members) \<Longrightarrow>
   get_property u k = Some (JString n)"
  by (auto simp: is_ref_def)

lemma awaiting_options_hidden:
  "phase (run es) \<noteq> Completed \<Longrightarrow> \<not> showUserOptions (run es)"
  using inv_run [of es] by (auto simp: invariant_def auth_state_null)

lemma texts_shell:
  "texts (shell u False) =
     [Str ''campaign'', Str ''Announcements'', Str ''group'', Str ''Discord Users'',
      Str '' calendar_month '', Str ''Promotion Schedule'',
      toDisplayString (get_property u ''displayName'')]"
  by (simp add: shell_def logo_link_def nav_def user_badge_def container_def)

lemma node_at_name:
  "node_at [0, 2, 0] (shell u vis) =
     Some (Element ''span'' [] None [Text (toDisplayString (get_property u ''displayName''))])"
  by (simp add: shell_def user_badge_def)

text \<open>
  C4, as the code has it. When the identity fetch resolves with a status in 200 to 299
  and the body parses to an object whose \<^verbatim>\<open>displayName\<close> is a string, with any further
  members but none named \<^verbatim>\<open>toString\<close> and no truthy one named \<^verbatim>\<open>__v_raw\<close>, the component
  stores that object in \<^verbatim>\<open>userData\<close> (as it is or behind its reactive proxy) and the
  render function gives the shell, whose badge (the node at path 0, 2, 0) shows the
  \<^verbatim>\<open>displayName\<close>.
\<close>

theorem session_renders_shell:
  assumes "phase (run es) = AwaitFetch" and "ok status"
    and "own_property members ''displayName'' = Some (JString name)"
    and "\<not> has_own members ''toString''"
    and "\<not> flag (JObject members) ''__v_raw''"
    and "s = run (es @ [FetchResolved status, JsonResolved (JObject members)])"
  shows "(userData s = JObject members \<or> userData s = JReactive (JObject members)) \<and>
         toRaw (userData s) = JObject members \<and>
         view s = Inr (shell (userData s) False) \<and>
         node_at [0, 2, 0] (shell (userData s) False)
           = Some (Element ''span'' [] None [Text (Str name)]) \<and>
         Str name \<in> set (texts (shell (userData s) False))"
proof -
  from assms(1) have "\<not> showUserOptions (run es)"
    by (simp add: awaiting_options_hidden)
  with assms(1,2,6) have u: "userData s = ref_set (JObject members)" and hidden: "\<not> showUserOptions s"
    by (simp_all add: run_append addEventListener_def)
  from u ref_set_object [OF assms(5)]
  have form: "userData s = JObject members \<or> userData s = JReactive (JObject members)"
    by simp
  with assms(5) have raw: "toRaw (userData s) = JObject members"
    by (auto simp: toRaw_object simp del: toRaw.simps(1))
  from hidden render_object [OF assms(4) form]
  have v: "view s = Inr (shell (userData s) False)"
    by (simp add: view_def)
  from get_property_string [OF assms(3) form]
  have "toDisplayString (get_property (userData s) ''displayName'') = Str name"
    by simp
  then have "node_at [0, 2, 0] (shell (userData s) False)
      = Some (Element ''span'' [] None [Text (Str name)])"
    and "Str name \<in> set (texts (shell (userData s) False))"
    by (simp_all only: node_at_name texts_shell) simp
  with form raw v show ?thesis by blast
qed

theorem session_renders_shell_witness:
  "phase (run [Mount]) = AwaitFetch \<and> ok 200 \<and>
   own_property [(''displayName'', JString ''A. User''),
      (''userPrincipalName'', JString ''auser@example.com''),
      (''mail'', JString ''auser@example.com'')] ''displayName'' = Some (JString ''A. User'') \<and>
   userData (run signed_in) = JReactive example_session \<and>
   view (run signed_in) = Inr (shell (JReactive example_session) False) \<and>
   Str ''A. User'' \<in> set (texts (shell (JReactive example_session) False))"
  using session_renders_shell [of "[Mount]" 200
      "[(''displayName'', JString ''A. User''), (''userPrincipalName'', JString ''auser@example.com''),
       (''mail'', JString ''auser@example.com'')]" "''A. User''" "run signed_in"]
  by (simp add: run_def init_def ok_def own_property_def has_own_def flag_def ref_set_def
      addEventListener_def example_session_def signed_in_def)

text \<open>
  C4 as stated fails on session bodies with further members. With a member named
  \<^verbatim>\<open>toString\<close> the comparison \<^verbatim>\<open>userData == false\<close> throws and nothing is rendered; with a
  truthy member named \<^verbatim>\<open>__v_raw\<close> the cell stores that member in place of the body, here
  the string \<^verbatim>\<open>"0"\<close>, which is loosely equal to \<^verbatim>\<open>false\<close>: the restricted view is shown.
\<close>

theorem session_body_counterexample:
  "view (run [Mount, FetchResolved 200, JsonResolved (JObject
      [(''displayName'', JString ''A. User''), (''userPrincipalName'', JString ''auser@example.com''),
       (''mail'', JString ''auser@example.com''), (''toString'', JString ''A. User'')])])
     = Inl TypeError \<and>
   userData (run [Mount, FetchResolved 200, JsonResolved (JObject
      [(''displayName'', JString ''A. User''), (''userPrincipalName'', JString ''auser@example.com''),
       (''mail'', JString ''auser@example.com''), (''__v_raw'', JString ''0'')])])
     = JString ''0'' \<and>
   view (run [Mount, FetchResolved 200, JsonResolved (JObject
      [(''displayName'', JString ''A. User''), (''userPrincipalName'', JString ''auser@example.com''),
       (''mail'', JString ''auser@example.com''), (''__v_raw'', JString ''0'')])])
     = Inr (Component ''Forbidden'' [] [])"
  by (simp add: run_def init_def ok_def view_def render_def own_property_def has_own_def
      flag_def ref_set_def addEventListener_def string_is_zero_def string_mv_def trim_def
      is_space_def unsigned_decimal_def is_digit_def exponent_part_def digits_value_def
      digit_of_def rounds_to_zero_def)

lemma present_completed:
  "auth_state (userData (run es)) = Present \<Longrightarrow>
   phase (run es) = Completed \<and> bodyClickListeners (run es) = 1"
  using inv_run [of es] by (auto simp: invariant_def auth_state_null)

lemma body_click_registered:
  "0 < bodyClickListeners s \<Longrightarrow> body_click s = s\<lparr>showUserOptions := False\<rparr>"
  by (simp add: body_click_def)

lemma update_same: "showUserOptions s = v \<Longrightarrow> s\<lparr>showUserOptions := v\<rparr> = s"
  by auto

text \<open>The definitions a concrete run is evaluated with.\<close>

lemmas eval_run = run_def init_def ok_def addEventListener_def click_def body_click_def
  render_def auth_state_def has_own_def own_property_def example_session_def signed_in_def
  ref_set_def flag_def is_ref_def
  shell_def logo_link_def nav_def user_badge_def options_popover_def container_def
  lands_in_component_def

text \<open>
  C2, as the code has it. In every state of a run in which the shell is rendered (the
  component is mounted and the identity is present), with paths into the rendered shell
  (\<open>node_at_badge\<close>: the badge is the node at 0, 2; \<open>node_at_popover\<close>: the popover is the
  node at 0, 2, 1): a click on the badge, or on anything in it outside the popover, sets
  \<^verbatim>\<open>showUserOptions\<close> to true and does not arrive at the body; a click inside the
  popover, which exists only when it is open, changes nothing and does not arrive
  either; any other click sets \<^verbatim>\<open>showUserOptions\<close> to false when it arrives at the body,
  and it does arrive from every element the template itself renders outside the badge,
  from the body outside the tree, and from inside a component defined elsewhere unless
  that component stops the event itself; a click so stopped changes nothing.
\<close>

theorem popover_click_policy:
  assumes "mounted (run es)" and "auth_state (userData (run es)) = Present"
  shows "click (run es) (InTree [0, 2]) ext = Some ((run es)\<lparr>showUserOptions := True\<rparr>, False) \<and>
         (take 2 p = [0, 2] \<and> take 3 p \<noteq> [0, 2, 1] \<and> click (run es) (InTree p) ext = Some (s1, a1)
            \<longrightarrow> s1 = (run es)\<lparr>showUserOptions := True\<rparr> \<and> \<not> a1) \<and>
         (take 3 q = [0, 2, 1] \<and> click (run es) (InTree q) ext = Some (s2, a2)
            \<longrightarrow> showUserOptions (run es) \<and> s2 = run es \<and> showUserOptions s2 \<and> \<not> a2) \<and>
         (take 2 r \<noteq> [0, 2] \<and> click (run es) (InTree r) ext = Some (s3, a3)
            \<longrightarrow> (if ext \<and> lands_in_component r
                        (shell (userData (run es)) (showUserOptions (run es)))
                 then s3 = run es \<and> \<not> a3
                 else s3 = (run es)\<lparr>showUserOptions := False\<rparr> \<and> \<not> showUserOptions s3 \<and> a3)) \<and>
         click (run es) InBody ext = Some ((run es)\<lparr>showUserOptions := False\<rparr>, True)"
proof -
  let ?s = "run es"
  let ?tree = "shell (userData ?s) (showUserOptions ?s)"
  note tree = click_tree_present [OF assms]
  from present_completed [OF assms(2)] have reg: "\<And>v. body_click (?s\<lparr>showUserOptions := v\<rparr>) = ?s\<lparr>showUserOptions := False\<rparr>"
    "body_click ?s = ?s\<lparr>showUserOptions := False\<rparr>"
    by (simp_all add: body_click_def)
  have badge: "click ?s (InTree [0, 2]) ext = Some (?s\<lparr>showUserOptions := True\<rparr>, False)"
    by (simp add: tree propagate_badge_click del: propagate.simps)
  have inside: "s1 = ?s\<lparr>showUserOptions := True\<rparr> \<and> \<not> a1"
    if "take 2 p = [0, 2]" "take 3 p \<noteq> [0, 2, 1]" "click ?s (InTree p) ext = Some (s1, a1)"
  proof -
    from that(3) obtain x where x: "propagate ext p ?tree (showUserOptions ?s) = Some x"
      by (auto simp: tree split: option.splits)
    from propagate_in_badge [OF that(1) x] that(2) have "x = (True, False)" by simp
    with x that(3) show ?thesis by (simp add: tree)
  qed
  have popover: "showUserOptions ?s \<and> s2 = ?s \<and> showUserOptions s2 \<and> \<not> a2"
    if "take 3 q = [0, 2, 1]" "click ?s (InTree q) ext = Some (s2, a2)"
  proof -
    from that(1) have q2: "take 2 q = [0, 2]"
      by (cases q; cases "tl q") auto
    from that(2) obtain x where x: "propagate ext q ?tree (showUserOptions ?s) = Some x"
      by (auto simp: tree split: option.splits)
    from propagate_in_badge [OF q2 x] that(1)
    have vis: "showUserOptions ?s" and "x = (showUserOptions ?s, False)" by simp_all
    with x that(2) have "s2 = ?s\<lparr>showUserOptions := True\<rparr>" "\<not> a2" by (auto simp: tree)
    with vis update_same [of ?s True] show ?thesis by simp
  qed
  have elsewhere: "if ext \<and> lands_in_component r ?tree then s3 = ?s \<and> \<not> a3
      else s3 = ?s\<lparr>showUserOptions := False\<rparr> \<and> \<not> showUserOptions s3 \<and> a3"
    if "take 2 r \<noteq> [0, 2]" "click ?s (InTree r) ext = Some (s3, a3)"
  proof -
    from that(2) obtain x where x: "propagate ext r ?tree (showUserOptions ?s) = Some x"
      by (auto simp: tree split: option.splits)
    from propagate_outside_badge [OF that(1) x]
    have xv: "x = (showUserOptions ?s, \<not> (ext \<and> lands_in_component r ?tree))" .
    show ?thesis
    proof (cases "ext \<and> lands_in_component r ?tree")
      case True
      with x xv that(2) have "s3 = ?s\<lparr>showUserOptions := showUserOptions ?s\<rparr>" "\<not> a3"
        by (auto simp: tree)
      with True show ?thesis by simp
    next
      case False
      with x xv that(2) have "s3 = ?s\<lparr>showUserOptions := False\<rparr>" "a3"
        by (auto simp: tree reg)
      with False show ?thesis by simp
    qed
  qed
  have body: "click ?s InBody ext = Some (?s\<lparr>showUserOptions := False\<rparr>, True)"
    by (simp add: click_body reg)
  from badge inside popover elsewhere body show ?thesis by blast
qed

theorem popover_click_policy_witness:
  "mounted (run signed_in) \<and> auth_state (userData (run signed_in)) = Present \<and>
   \<not> showUserOptions (run signed_in) \<and>
   click (run signed_in) (InTree [0, 2]) False
     = Some ((run signed_in)\<lparr>showUserOptions := True\<rparr>, False) \<and>
   click (run signed_in) (InTree [0, 2, 0]) False
     = Some ((run signed_in)\<lparr>showUserOptions := True\<rparr>, False) \<and>
   showUserOptions (run (signed_in @ [Click (InTree [0, 2]) False])) \<and>
   click (run (signed_in @ [Click (InTree [0, 2]) False])) (InTree [0, 2, 1, 0, 0]) False
     = Some (run (signed_in @ [Click (InTree [0, 2]) False]), False) \<and>
   click (run (signed_in @ [Click (InTree [0, 2]) False])) (InTree [0, 1, 0]) False
     = Some ((run (signed_in @ [Click (InTree [0, 2]) False]))\<lparr>showUserOptions := False\<rparr>, True) \<and>
   click (run (signed_in @ [Click (InTree [0, 2]) False])) (InTree [0, 1, 0, 1]) True
     = Some ((run (signed_in @ [Click (InTree [0, 2]) False]))\<lparr>showUserOptions := False\<rparr>, True) \<and>
   click (run (signed_in @ [Click (InTree [0, 2]) False])) InBody False
     = Some ((run (signed_in @ [Click (InTree [0, 2]) False]))\<lparr>showUserOptions := False\<rparr>, True)"
  using popover_click_policy [where es = signed_in and ext = False and p = "[0, 2, 0]"
      and ?s1.0 = "(run signed_in)\<lparr>showUserOptions := True\<rparr>" and ?a1.0 = False]
    popover_click_policy [where es = "signed_in @ [Click (InTree [0, 2]) False]" and ext = False
      and q = "[0, 2, 1, 0, 0]" and ?s2.0 = "run (signed_in @ [Click (InTree [0, 2]) False])"
      and ?a2.0 = False and r = "[0, 1, 0]"
      and ?s3.0 = "(run (signed_in @ [Click (InTree [0, 2]) False]))\<lparr>showUserOptions := False\<rparr>"
      and ?a3.0 = True]
    popover_click_policy [where es = "signed_in @ [Click (InTree [0, 2]) False]" and ext = True
      and r = "[0, 1, 0, 1]"
      and ?s3.0 = "(run (signed_in @ [Click (InTree [0, 2]) False]))\<lparr>showUserOptions := False\<rparr>"
      and ?a3.0 = True]
  by (simp add: eval_run)

text \<open>
  C2 as stated fails: with the popover open, a click inside the routed view that the
  view's own handler stops is a click outside the badge and the popover, and it leaves
  \<^verbatim>\<open>showUserOptions\<close> true.
\<close>

theorem stopped_click_counterexample:
  "showUserOptions (run (signed_in @ [Click (InTree [0, 2]) False])) \<and>
   take 2 [1, 0] \<noteq> [0, 2 :: nat] \<and>
   node_at [1, 0] (shell (userData (run (signed_in @ [Click (InTree [0, 2]) False]))) True)
     = Some (Component ''RouterView'' [] []) \<and>
   click (run (signed_in @ [Click (InTree [0, 2]) False])) (InTree [1, 0]) True
     = Some (run (signed_in @ [Click (InTree [0, 2]) False]), False) \<and>
   showUserOptions (step (run (signed_in @ [Click (InTree [0, 2]) False]))
     (Click (InTree [1, 0]) True))"
  by (simp add: eval_run)

text \<open>
  C7. \<^verbatim>\<open>showUserOptions\<close> starts as false, and in every state of a run it is true only
  when the identity is present; in the unknown and in the absent state it is false.
\<close>

theorem options_visible_only_when_present:
  "\<not> showUserOptions init \<and>
   (showUserOptions (run es) \<longrightarrow> auth_state (userData (run es)) = Present) \<and>
   (auth_state (userData (run es)) = Unknown \<or> auth_state (userData (run es)) = Absent
      \<longrightarrow> \<not> showUserOptions (run es))"
  using inv_run [of es] by (auto simp: invariant_def init_def)

theorem options_visible_only_when_present_witness:
  "showUserOptions (run (signed_in @ [Click (InTree [0, 2]) False])) \<and>
   auth_state (userData (run (signed_in @ [Click (InTree [0, 2]) False]))) = Present \<and>
   auth_state (userData (run [Mount, FetchResolved 403, Click InBody False])) = Absent \<and>
   \<not> showUserOptions (run [Mount, FetchResolved 403, Click InBody False]) \<and>
   auth_state (userData (run [Mount, Click InBody False])) = Unknown \<and>
   \<not> showUserOptions (run [Mount, Click InBody False])"
  using options_visible_only_when_present [of "signed_in @ [Click (InTree [0, 2]) False]"]
    options_visible_only_when_present [of "[Mount, FetchResolved 403, Click InBody False]"]
    options_visible_only_when_present [of "[Mount, Click InBody False]"]
  by (simp add: eval_run)

lemma nav_targets_shell:
  "nav_targets (shell u vis) = [''/announcements'', ''/discord/users'', ''/promotion-schedule'']"
  by (simp add: nav_targets_def shell_def logo_link_def nav_def user_badge_def
      options_popover_def container_def)

lemma router_links_shell:
  "router_links (shell u vis) =
     [''/'', ''/announcements'', ''/discord/users'', ''/promotion-schedule'']"
  by (simp add: shell_def logo_link_def nav_def user_badge_def options_popover_def container_def)

text \<open>
  C8. Whenever the shell is rendered, its \<^verbatim>\<open>nav\<close> element holds exactly three router
  links, to \<^verbatim>\<open>/announcements\<close>, \<^verbatim>\<open>/discord/users\<close> and \<^verbatim>\<open>/promotion-schedule\<close>. The
  only other router link of the shell is the logo's, to \<^verbatim>\<open>/\<close>, outside \<^verbatim>\<open>nav\<close>.
\<close>

theorem shell_navigation_entries:
  "(auth_state u = Present \<longrightarrow> render u vis = Inr (shell u vis)) \<and>
   (render u vis = Inr t \<and> auth_state u = Present \<longrightarrow>
      nav_targets t = [''/announcements'', ''/discord/users'', ''/promotion-schedule''] \<and>
      length (nav_targets t) = 3 \<and>
      router_links t = ''/'' # nav_targets t)"
  by (auto simp: render_present nav_targets_shell router_links_shell)

theorem shell_navigation_entries_witness:
  "auth_state example_session = Present \<and>
   render example_session False = Inr (shell example_session False) \<and>
   nav_targets (shell example_session False)
     = [''/announcements'', ''/discord/users'', ''/promotion-schedule'']"
  using shell_navigation_entries [of example_session False "shell example_session False"]
  by (simp add: auth_state_def render_def example_session_def has_own_def)

lemma anchors_shell_open:
  "elements_named ''a'' (shell u True) =
     [Element ''a'' [(''href'', ''/api/auth/signout'')] None
        [Element ''span'' [] None [Text (Str ''Sign out'')],
         Element ''span'' [(''class'', ''material-symbols-rounded'')] None [Text (Str ''logout'')]]]"
  by (simp add: shell_def logo_link_def nav_def user_badge_def options_popover_def container_def)

lemma anchors_shell_closed: "elements_named ''a'' (shell u False) = []"
  by (simp add: shell_def logo_link_def nav_def user_badge_def container_def)

lemma handlers_shell_open: "handlers (shell u True) = [OnClick True (Some True), OnClick True None]"
  by (simp add: shell_def logo_link_def nav_def user_badge_def options_popover_def container_def)

lemma node_at_sign_out:
  "node_at [0, 2, 1, 0, 0] (shell u True) =
     Some (Element ''a'' [(''href'', ''/api/auth/signout'')] None
        [Element ''span'' [] None [Text (Str ''Sign out'')],
         Element ''span'' [(''class'', ''material-symbols-rounded'')] None [Text (Str ''logout'')]])"
  by (simp add: shell_def user_badge_def options_popover_def)

lemma propagate_sign_out:
  "propagate ext [0, 2, 1, 0, 0] (shell u True) True = Some (True, False)"
  by (simp add: shell_def user_badge_def options_popover_def)

text \<open>
  C9. Sign-out is one plain hyperlink: the only \<^verbatim>\<open>a\<close> element of the template, inside
  the popover (none when the popover is closed), with \<^verbatim>\<open>href="/api/auth/signout"\<close> and
  no click handler. The template's only handlers are those of the badge and of the
  popover. A click on the link changes no state of the component; the event stops at the
  popover.
\<close>

theorem sign_out_is_plain_link:
  "elements_named ''a'' (shell u True) =
     [Element ''a'' [(''href'', ''/api/auth/signout'')] None
        [Element ''span'' [] None [Text (Str ''Sign out'')],
         Element ''span'' [(''class'', ''material-symbols-rounded'')] None [Text (Str ''logout'')]]] \<and>
   node_at [0, 2, 1, 0, 0] (shell u True) = Some (hd (elements_named ''a'' (shell u True))) \<and>
   elements_named ''a'' (shell u False) = [] \<and>
   handlers (shell u True) = [OnClick True (Some True), OnClick True None] \<and>
   (mounted s \<and> auth_state (userData s) = Present \<and> showUserOptions s \<longrightarrow>
      click s (InTree [0, 2, 1, 0, 0]) ext = Some (s, False))"
proof -
  have c: "click s (InTree [0, 2, 1, 0, 0]) ext = Some (s, False)"
    if "mounted s" "auth_state (userData s) = Present" "showUserOptions s"
  proof -
    from that(3) have same: "s\<lparr>showUserOptions := True\<rparr> = s"
      using update_same [of s True] by simp
    from that(3) have "click s (InTree [0, 2, 1, 0, 0]) ext =
        (case propagate ext [0, 2, 1, 0, 0] (shell (userData s) True) True of
           None \<Rightarrow> None
         | Some (vis, bubbling) \<Rightarrow>
             if bubbling then Some (body_click (s\<lparr>showUserOptions := vis\<rparr>), True)
             else Some (s\<lparr>showUserOptions := vis\<rparr>, False))"
      using click_tree_present [OF that(1,2), of "[0, 2, 1, 0, 0]" ext] by simp
    also have "\<dots> = Some (s\<lparr>showUserOptions := True\<rparr>, False)"
      by (simp only: propagate_sign_out) simp
    finally show ?thesis by (simp only: same)
  qed
  have n: "node_at [0, 2, 1, 0, 0] (shell u True) = Some (hd (elements_named ''a'' (shell u True)))"
    by (simp only: anchors_shell_open list.sel node_at_sign_out)
  from c n anchors_shell_open [of u] anchors_shell_closed [of u] handlers_shell_open [of u]
  show ?thesis by blast
qed

theorem sign_out_is_plain_link_witness:
  "mounted (run (signed_in @ [Click (InTree [0, 2]) False])) \<and>
   auth_state (userData (run (signed_in @ [Click (InTree [0, 2]) False]))) = Present \<and>
   showUserOptions (run (signed_in @ [Click (InTree [0, 2]) False])) \<and>
   click (run (signed_in @ [Click (InTree [0, 2]) False])) (InTree [0, 2, 1, 0, 0]) False
     = Some (run (signed_in @ [Click (InTree [0, 2]) False]), False) \<and>
   length (elements_named ''a'' (shell example_session True)) = 1"
  using sign_out_is_plain_link [of example_session "run (signed_in @ [Click (InTree [0, 2]) False])" False]
  by (simp add: eval_run)

lemma step_click_unresolved:
  assumes "phase (run es) \<noteq> Completed"
  shows "step (run es) (Click t ext) = run es"
proof -
  from assms inv_run [of es] have null: "userData (run es) = JNull"
    and none: "bodyClickListeners (run es) = 0"
    by (simp_all add: invariant_def)
  show ?thesis
  proof (cases t)
    case InBody
    with none show ?thesis by (simp add: click_def body_click_def)
  next
    case (InTree p)
    with null show ?thesis by (simp add: click_tree_unknown auth_state_null)
  qed
qed

lemma listeners_mono: "bodyClickListeners s \<le> bodyClickListeners (step s e)"
  by (cases e) (simp_all add: step_click_listeners addEventListener_def del: step.simps(6))

text \<open>
  C10. The click listener on \<^verbatim>\<open>document.body\<close> is registered only when the mount callback
  has run to its end, after the fetch and the body have settled, and then once; it is
  never registered when the fetch promise rejects. Until then no click changes
  \<^verbatim>\<open>showUserOptions\<close>, which is false: a click changes nothing at all. No event, unmount
  included, lowers the number of registered listeners.
\<close>

theorem click_listener_lifecycle:
  "(0 < bodyClickListeners (run es) \<longrightarrow> phase (run es) = Completed) \<and>
   (phase (run es) = Completed \<longrightarrow> bodyClickListeners (run es) = 1) \<and>
   (phase (run es) = AwaitFetch \<longrightarrow> bodyClickListeners (run (es @ FetchRejected # later)) = 0) \<and>
   (phase (run es) \<noteq> Completed \<longrightarrow>
      \<not> showUserOptions (run es) \<and> step (run es) (Click t ext) = run es) \<and>
   bodyClickListeners (step s Unmount) = bodyClickListeners s \<and>
   bodyClickListeners s \<le> bodyClickListeners (step s e)"
proof -
  from inv_run [of es] have
    "0 < bodyClickListeners (run es) \<longrightarrow> phase (run es) = Completed"
    "phase (run es) = Completed \<longrightarrow> bodyClickListeners (run es) = 1"
    by (auto simp: invariant_def)
  moreover have "phase (run es) = AwaitFetch \<longrightarrow>
      bodyClickListeners (run (es @ FetchRejected # later)) = 0"
    by (simp add: fetch_rejected_state)
  moreover have "phase (run es) \<noteq> Completed \<longrightarrow>
      \<not> showUserOptions (run es) \<and> step (run es) (Click t ext) = run es"
    by (simp add: awaiting_options_hidden step_click_unresolved del: step.simps(6))
  moreover have "bodyClickListeners (step s Unmount) = bodyClickListeners s" by simp
  ultimately show ?thesis using listeners_mono [of s e] by blast
qed

theorem click_listener_lifecycle_witness:
  "bodyClickListeners (run signed_in) = 1 \<and> phase (run signed_in) = Completed \<and>
   phase (run [Mount]) = AwaitFetch \<and>
   bodyClickListeners (run ([Mount] @ FetchRejected # [Click InBody False, Unmount])) = 0 \<and>
   step (run [Mount]) (Click InBody False) = run [Mount] \<and>
   bodyClickListeners (step (run signed_in) Unmount) = 1"
  using click_listener_lifecycle [of signed_in "[]" InBody False "run signed_in" Unmount]
    click_listener_lifecycle [of "[Mount]" "[Click InBody False, Unmount]" InBody False
      "run signed_in" Unmount]
  by (simp add: eval_run)

lemma transitions_snoc:
  "transitions s (es @ [e]) =
     transitions s es +
     (if auth_state (userData (foldl step s es)) = Unknown \<and>
         auth_state (userData (step (foldl step s es) e)) \<noteq> Unknown then 1 else 0)"
  by (induction es arbitrary: s) simp_all

lemma known_completed:
  "auth_state (userData (run es)) \<noteq> Unknown \<Longrightarrow> phase (run es) = Completed"
  using inv_run [of es] by (auto simp: invariant_def auth_state_null)

lemma transitions_run:
  "transitions init es = (if auth_state (userData (run es)) = Unknown then 0 else 1)"
proof (induction es rule: rev_induct)
  case Nil
  show ?case by (simp add: run_Nil init_def auth_state_null)
next
  case (snoc e es)
  show ?case
  proof (cases "auth_state (userData (run es)) = Unknown")
    case True
    with snoc show ?thesis
      by (simp add: transitions_snoc run_snoc run_def [symmetric] del: step.simps)
  next
    case False
    then have "phase (run es) = Completed" by (rule known_completed)
    then have "userData (step (run es) e) = userData (run es)" by (simp add: step_completed)
    with False snoc show ?thesis
      by (simp add: transitions_snoc run_snoc run_def [symmetric] del: step.simps)
  qed
qed

lemma userData_written:
  assumes "userData (step s e) \<noteq> userData s"
  shows "(\<exists>status. e = FetchResolved status \<and> \<not> ok status) \<and> phase s = AwaitFetch \<or>
         (\<exists>v. e = JsonResolved v) \<and> phase s = AwaitJson"
  using assms
  by (cases e) (auto simp: step_click_userData addEventListener_def simp del: step.simps(6)
      split: if_splits)

text \<open>
  C6, as the code has it. The identity is in exactly one of the three states (they are the
  values of one function of \<^verbatim>\<open>userData\<close>). A run leaves the unknown state at most once,
  and only in the mount callback: when the response has a failure status or when the body
  has been parsed. It does not leave it when the fetch promise rejects, and leaves it
  exactly once when the response has a failure status. Once the callback has finished,
  \<^verbatim>\<open>userData\<close> is never written again.
\<close>

theorem auth_state_transitions:
  "(auth_state (userData (run es)) = Unknown \<or> auth_state (userData (run es)) = Absent \<or>
    auth_state (userData (run es)) = Present) \<and>
   transitions init es \<le> 1 \<and>
   (auth_state (userData (step (run es) e)) \<noteq> auth_state (userData (run es)) \<longrightarrow>
      auth_state (userData (run es)) = Unknown \<and>
      ((\<exists>status. e = FetchResolved status \<and> \<not> ok status) \<and> phase (run es) = AwaitFetch \<or>
       (\<exists>v. e = JsonResolved v) \<and> phase (run es) = AwaitJson)) \<and>
   (phase (run es) = AwaitFetch \<longrightarrow> transitions init (es @ FetchRejected # later) = 0) \<and>
   (phase (run es) = AwaitFetch \<and> \<not> ok status \<longrightarrow>
      transitions init (es @ FetchResolved status # later) = 1) \<and>
   (phase (run es) = Completed \<longrightarrow> userData (run (es @ later)) = userData (run es))"
proof -
  have one: "auth_state (userData (run es)) = Unknown \<or> auth_state (userData (run es)) = Absent \<or>
      auth_state (userData (run es)) = Present"
    by (cases "auth_state (userData (run es))") simp_all
  have most: "transitions init es \<le> 1"
    by (simp add: transitions_run)
  have change: "auth_state (userData (run es)) = Unknown \<and>
      ((\<exists>status. e = FetchResolved status \<and> \<not> ok status) \<and> phase (run es) = AwaitFetch \<or>
       (\<exists>v. e = JsonResolved v) \<and> phase (run es) = AwaitJson)"
    if d: "auth_state (userData (step (run es) e)) \<noteq> auth_state (userData (run es))"
  proof -
    from d have w: "userData (step (run es) e) \<noteq> userData (run es)" by auto
    then have "phase (run es) \<noteq> Completed" using step_completed [of "run es" e] by auto
    then have "auth_state (userData (run es)) = Unknown"
      by (simp add: unresolved_null auth_state_null)
    with userData_written [OF w] show ?thesis by blast
  qed
  have rejected: "transitions init (es @ FetchRejected # later) = 0"
    if "phase (run es) = AwaitFetch"
    using fetch_rejected_state [OF that, of later] by (simp add: transitions_run auth_state_null)
  have failed: "transitions init (es @ FetchResolved status # later) = 1"
    if "phase (run es) = AwaitFetch" "\<not> ok status"
    using failure_status_state [OF that, of later] by (simp add: transitions_run auth_state_false)
  have frozen: "userData (run (es @ later)) = userData (run es)" if "phase (run es) = Completed"
    using that by (simp add: run_append foldl_completed)
  from one most change rejected failed frozen show ?thesis by blast
qed

theorem auth_state_transitions_witness:
  "auth_state (userData (run [Mount])) = Unknown \<and>
   auth_state (userData (step (run [Mount]) (FetchResolved 403))) = Absent \<and>
   phase (run [Mount]) = AwaitFetch \<and> \<not> ok 403 \<and>
   transitions init ([Mount] @ FetchRejected # [Click InBody False]) = 0 \<and>
   transitions init ([Mount] @ FetchResolved 403 # [Click InBody False]) = 1 \<and>
   phase (run signed_in) = Completed \<and>
   userData (run (signed_in @ [Click (InTree [0, 2]) False, Unmount])) = userData (run signed_in)"
  using auth_state_transitions [of "[Mount]" "FetchResolved 403" "[Click InBody False]" 403]
    auth_state_transitions [of signed_in Unmount "[Click (InTree [0, 2]) False, Unmount]" 403]
  by (simp add: eval_run)

text \<open>
  C6 as stated fails: in a whole life of the component whose fetch is rejected, the state
  never leaves unknown.
\<close>

theorem transition_counterexample:
  "transitions init [Mount, FetchRejected, Click InBody False, Unmount] = 0 \<and>
   transitions init [Mount, FetchRejected, Click InBody False, Unmount] \<noteq> 1 \<and>
   auth_state (userData (run [Mount, FetchRejected, Click InBody False, Unmount])) = Unknown"
  by (simp add: eval_run)

end
